theory Spec2Isabelle
  imports Main "HOL-Library.AList" "HOL-Library.Sublist"
begin

section \<open>Python values and strings\<close>

text \<open>
  The exporter (\<^verbatim>\<open>scripts/export-conversation.py\<close>) works on values decoded by
  \<^verbatim>\<open>json.loads\<close>. A decoded value is \<open>None\<close>, a bool, an int, a float (kept as the
  number of its bit pattern), a str, a list or a dict. A dict is an association list in
  insertion order;
  \<open>map_of\<close> is \<^verbatim>\<open>d.get(k)\<close>, \<open>AList.update\<close> is \<^verbatim>\<open>d[k] = v\<close> (in place when the
  key exists, appended otherwise) and \<open>AList.delete\<close> removes a key.
  A Python \<^verbatim>\<open>str\<close> is a \<open>string\<close>, one \<open>char\<close> per code point (code points below 256).
\<close>

datatype json =
    JNull
  | JBool bool
  | JInt int
  | JFloat nat
  | JStr string
  | JArr "json list"
  | JObj "(string \<times> json) list"

type_synonym pydict = "(string \<times> json) list"

text \<open>The exceptions the modelled code can raise.\<close>

datatype error = TypeError | AttributeError | FileNotFoundError

text \<open>
  Library functions of Python that the script calls and that are not part of the
  repository are parameters of the model:
  \<^item> \<open>json_loads\<close>: \<^verbatim>\<open>json.loads\<close>; \<open>None\<close> is \<^verbatim>\<open>json.JSONDecodeError\<close>, the only
    exception it is taken to raise (no line is nested beyond the recursion limit);
  \<^item> \<open>py_repr\<close>: \<^verbatim>\<open>str(v)\<close> of a value that is not a str (what an f-string prints);
  \<^item> \<open>json_dumps\<close>: \<^verbatim>\<open>json.dumps(v, indent=2, ensure_ascii=False)\<close>;
  \<^item> \<open>json_dumps_flat\<close>: \<^verbatim>\<open>json.dumps(v)\<close>.
\<close>

record pylib =
  json_loads :: "string \<Rightarrow> json option"
  py_repr :: "json \<Rightarrow> string"
  json_dumps :: "json \<Rightarrow> string"
  json_dumps_flat :: "json \<Rightarrow> string"

definition py_str :: "pylib \<Rightarrow> json \<Rightarrow> string" where
  "py_str L v = (case v of JStr s \<Rightarrow> s | _ \<Rightarrow> py_repr L v)"

definition dict_get :: "pydict \<Rightarrow> string \<Rightarrow> json \<Rightarrow> json" where
  "dict_get d k dflt = (case map_of d k of None \<Rightarrow> dflt | Some v \<Rightarrow> v)"

definition LF :: char where
  "LF = CHR 0x0A"

definition CR :: char where
  "CR = CHR 0x0D"

text \<open>\<^verbatim>\<open>str.isspace\<close> on one code point below 256.\<close>

definition isspace :: "char \<Rightarrow> bool" where
  "isspace c = (let n = (of_char c :: nat) in
     (9 \<le> n \<and> n \<le> 13) \<or> (28 \<le> n \<and> n \<le> 32) \<or> n = 133 \<or> n = 160)"

definition lstrip :: "string \<Rightarrow> string" where
  "lstrip s = dropWhile isspace s"

definition rstrip :: "string \<Rightarrow> string" where
  "rstrip s = rev (dropWhile isspace (rev s))"

definition strip :: "string \<Rightarrow> string" where
  "strip s = rstrip (lstrip s)"

text \<open>\<^verbatim>\<open>str.lower\<close> on code points below 256: A-Z and the Latin-1 capitals.\<close>

definition lower_char :: "char \<Rightarrow> char" where
  "lower_char c = (let n = (of_char c :: nat) in
     if (65 \<le> n \<and> n \<le> 90) \<or> (192 \<le> n \<and> n \<le> 222 \<and> n \<noteq> 215)
     then char_of (n + 32) else c)"

definition lower :: "string \<Rightarrow> string" where
  "lower s = map lower_char s"

text \<open>\<^verbatim>\<open>sep.join(xs)\<close> on strs.\<close>

fun join :: "string \<Rightarrow> string list \<Rightarrow> string" where
  "join sep [] = []"
| "join sep [x] = x"
| "join sep (x # y # ys) = x @ sep @ join sep (y # ys)"

text \<open>\<^verbatim>\<open>s.startswith(p)\<close> is \<open>prefix p s\<close>; \<^verbatim>\<open>k in s\<close> on strs is \<open>sublist k s\<close>.\<close>

section \<open>Log Reader\<close>

text \<open>
  What \<^verbatim>\<open>open(transcript_path)\<close> and the iteration over the file give: the file is
  missing (\<^verbatim>\<open>FileNotFoundError\<close>), reading it fails with another exception, or it
  yields its lines.
\<close>

datatype log_source = NotFound | ReadError | Content "string list"

text \<open>
  The body of the inner \<^verbatim>\<open>try\<close> after a successful decode (lines 30-39): the record to
  append, if any, or the exception raised. \<^verbatim>\<open>data.get\<close> on a value that is not a dict
  raises \<^verbatim>\<open>AttributeError\<close>; \<^verbatim>\<open>msg_data['_msg_type'] = msg_type\<close> on a value that is
  not a dict raises \<^verbatim>\<open>TypeError\<close>.
\<close>

definition select_record :: "json \<Rightarrow> error + pydict option" where
  "select_record data =
     (case data of
        JObj d \<Rightarrow>
          (let msg_type = dict_get d ''type'' JNull in
           if msg_type \<in> {JStr ''user'', JStr ''assistant''} then
             (case map_of d ''message'' of
                None \<Rightarrow> Inr None
              | Some (JObj msg_data) \<Rightarrow> Inr (Some (AList.update ''_msg_type'' msg_type msg_data))
              | Some _ \<Rightarrow> Inl TypeError)
           else if msg_type \<in> {JStr ''tool_use'', JStr ''tool_result''} then Inr (Some d)
           else Inr None)
      | _ \<Rightarrow> Inl AttributeError)"

text \<open>The \<^verbatim>\<open>for line in f\<close> loop, with \<open>messages\<close> as accumulator.\<close>

fun read_lines :: "pylib \<Rightarrow> string list \<Rightarrow> pydict list \<Rightarrow> error + pydict list" where
  "read_lines L [] messages = Inr messages"
| "read_lines L (l # ls) messages =
     (let line = strip l in
      if line = [] then read_lines L ls messages
      else (case json_loads L line of
              None \<Rightarrow> read_lines L ls messages
            | Some data \<Rightarrow>
                (case select_record data of
                   Inl e \<Rightarrow> Inl e
                 | Inr None \<Rightarrow> read_lines L ls messages
                 | Inr (Some r) \<Rightarrow> read_lines L ls (messages @ [r]))))"

text \<open>
  \<^verbatim>\<open>parse_transcript\<close>: both outer handlers return the empty list, also for an
  exception raised inside the loop.
\<close>

definition parse_transcript :: "pylib \<Rightarrow> log_source \<Rightarrow> pydict list" where
  "parse_transcript L src =
     (case src of
        NotFound \<Rightarrow> []
      | ReadError \<Rightarrow> []
      | Content ls \<Rightarrow> (case read_lines L ls [] of Inl e \<Rightarrow> [] | Inr messages \<Rightarrow> messages))"

section \<open>Content Extractor\<close>

text \<open>
  Fragments are collected in the list \<open>texts\<close>. A block's \<^verbatim>\<open>text\<close> can be any decoded
  value, so \<open>texts\<close> holds values; \<^verbatim>\<open>'\n'.join(texts)\<close> raises \<^verbatim>\<open>TypeError\<close> when one of
  them is not a str.
\<close>

fun as_strs :: "json list \<Rightarrow> error + string list" where
  "as_strs [] = Inr []"
| "as_strs (JStr s # ts) = (case as_strs ts of Inl e \<Rightarrow> Inl e | Inr ss \<Rightarrow> Inr (s # ss))"
| "as_strs (_ # ts) = Inl TypeError"

definition join_strip :: "json list \<Rightarrow> error + string option" where
  "join_strip texts =
     (case as_strs texts of Inl e \<Rightarrow> Inl e | Inr ss \<Rightarrow> Inr (Some (strip (join [LF] ss))))"

text \<open>
  The test \<^verbatim>\<open>isinstance(item, dict) and item.get('type') == 'text'\<close> with what is
  taken from the item (lines 79-80 and 128-129).
\<close>

definition text_item :: "json \<Rightarrow> json list" where
  "text_item item =
     (case item of
        JObj d \<Rightarrow> if map_of d ''type'' = Some (JStr ''text'')
                  then [dict_get d ''text'' (JStr [])] else []
      | _ \<Rightarrow> [])"

text \<open>One block of a user message (lines 64-82): what it appends to \<open>texts\<close>.\<close>

definition user_block :: "pylib \<Rightarrow> json \<Rightarrow> error + json list" where
  "user_block L block =
     (case block of
        JObj b \<Rightarrow>
          if map_of b ''type'' = Some (JStr ''text'') then Inr [dict_get b ''text'' (JStr [])]
          else if map_of b ''type'' = Some (JStr ''image'') then
            (case dict_get b ''source'' (JObj []) of
               JObj src \<Rightarrow>
                 Inr [JStr (''[Image: '' @ py_str L (dict_get src ''media_type'' (JStr ''unknown''))
                            @ '']'')]
             | _ \<Rightarrow> Inl AttributeError)
          else if map_of b ''type'' = Some (JStr ''tool_result'') then
            Inr (JStr (''[Tool Result: '' @ py_str L (dict_get b ''tool_use_id'' (JStr ''unknown''))
                       @ '']'')
                 # (case map_of b ''content'' of
                      Some (JStr s) \<Rightarrow> [JStr s]
                    | Some (JArr items) \<Rightarrow> concat (map text_item items)
                    | _ \<Rightarrow> []))
          else Inr []
      | JStr s \<Rightarrow> Inr [JStr s]
      | _ \<Rightarrow> Inr [])"

fun user_blocks :: "pylib \<Rightarrow> json list \<Rightarrow> error + json list" where
  "user_blocks L [] = Inr []"
| "user_blocks L (b # bs) =
     (case user_block L b of
        Inl e \<Rightarrow> Inl e
      | Inr xs \<Rightarrow> (case user_blocks L bs of Inl e \<Rightarrow> Inl e | Inr ys \<Rightarrow> Inr (xs @ ys)))"

text \<open>The rendering of a tool input (lines 99-102 and 112-115).\<close>

definition input_block :: "pylib \<Rightarrow> pydict \<Rightarrow> string list" where
  "input_block L d =
     (case map_of d ''input'' of
        Some (JObj input_data) \<Rightarrow>
          if input_data \<noteq> []
          then [''```json'' @ [LF] @ json_dumps L (JObj input_data) @ [LF] @ ''```'' @ [LF]]
          else []
      | _ \<Rightarrow> [])"

text \<open>One block of an assistant message (lines 92-104).\<close>

definition assistant_block :: "pylib \<Rightarrow> json \<Rightarrow> json list" where
  "assistant_block L block =
     (case block of
        JObj b \<Rightarrow>
          if map_of b ''type'' = Some (JStr ''text'') then [dict_get b ''text'' (JStr [])]
          else if map_of b ''type'' = Some (JStr ''tool_use'') then
            JStr ([LF] @ ''**Tool Use**: `'' @ py_str L (dict_get b ''name'' (JStr ''unknown''))
                  @ ''`'' @ [LF])
            # map JStr (input_block L b)
          else []
      | JStr s \<Rightarrow> [JStr s]
      | _ \<Rightarrow> [])"

text \<open>The verbatim blocks of a standalone tool result (lines 122-129).\<close>

definition verbatim :: "string \<Rightarrow> string" where
  "verbatim s = ''```'' @ [LF] @ s @ [LF] @ ''```'' @ [LF]"

definition result_blocks :: "pylib \<Rightarrow> pydict \<Rightarrow> string" where
  "result_blocks L message =
     (case map_of message ''content'' of
        Some (JStr content) \<Rightarrow> verbatim content
      | Some (JArr items) \<Rightarrow>
          concat (map (\<lambda>t. verbatim (py_str L t)) (concat (map text_item items)))
      | _ \<Rightarrow> [])"

text \<open>
  \<^verbatim>\<open>extract_content\<close> returns the fragment (\<open>None\<close> for Python's \<^verbatim>\<open>None\<close>) or raises, and
  it changes its argument: \<^verbatim>\<open>message.pop('_msg_type', ...)\<close> removes the key. The second
  component is the record after the call.
\<close>

definition extract_content :: "pylib \<Rightarrow> pydict \<Rightarrow> (error + string option) \<times> pydict" where
  "extract_content L message0 =
     (let msg_type = (case map_of message0 ''_msg_type'' of
                        Some v \<Rightarrow> v
                      | None \<Rightarrow> dict_get message0 ''role'' (JStr []));
          message = AList.delete ''_msg_type'' message0
      in (if msg_type = JStr ''user'' \<or> map_of message ''role'' = Some (JStr ''user'') then
            (case dict_get message ''content'' (JStr []) of
               JArr blocks \<Rightarrow>
                 (case user_blocks L blocks of Inl e \<Rightarrow> Inl e | Inr texts \<Rightarrow> join_strip texts)
             | content \<Rightarrow> Inr (Some (py_str L content)))
          else if msg_type = JStr ''assistant''
                  \<or> map_of message ''role'' = Some (JStr ''assistant'') then
            (case dict_get message ''content'' (JArr []) of
               JArr blocks \<Rightarrow> join_strip (concat (map (assistant_block L) blocks))
             | content \<Rightarrow> Inr (Some (py_str L content)))
          else if map_of message ''type'' = Some (JStr ''tool_use'') then
            Inr (Some (''**Tool Use**: `'' @ py_str L (dict_get message ''name'' (JStr ''unknown''))
                       @ ''`'' @ [LF] @ concat (input_block L message)))
          else if map_of message ''type'' = Some (JStr ''tool_result'') then
            Inr (Some (''**Tool Result**: `''
                       @ py_str L (dict_get message ''tool_use_id'' (JStr ''unknown''))
                       @ ''`'' @ [LF] @ result_blocks L message))
          else Inr None,
          message))"

section \<open>Metadata Inferencer\<close>

definition skip_prefixes :: "string list" where
  "skip_prefixes = [''[Tool Result:'', ''[Tool Use:'', ''[Request interrupted'', ''[Image:'']"

text \<open>
  The body of the loop of \<^verbatim>\<open>generate_title\<close> for one extracted content (lines 140-154):
  the title it returns, or \<open>None\<close> when the loop goes on to the next message.
\<close>

definition title_candidate :: "string option \<Rightarrow> string option" where
  "title_candidate c =
     (case c of
        None \<Rightarrow> None
      | Some content0 \<Rightarrow>
          if content0 = [] then None
          else
            (let content = strip content0 in
             if \<exists>p \<in> set skip_prefixes. prefix p content then None
             else if length content < 20 then None
             else
               (let first_line = strip (takeWhile (\<lambda>ch. ch \<noteq> LF) content) in
                if length first_line > 50 then Some (take 47 first_line @ ''...'')
                else if first_line \<noteq> [] then Some first_line
                else None)))"

text \<open>Puts a record back in front of the records of the rest of a loop.\<close>

definition keep :: "pydict \<Rightarrow> error + ('a \<times> pydict list) \<Rightarrow> error + ('a \<times> pydict list)" where
  "keep msg r = (case r of Inl e \<Rightarrow> Inl e | Inr (x, msgs) \<Rightarrow> Inr (x, msg # msgs))"

text \<open>
  \<^verbatim>\<open>generate_title\<close> returns the title and the records as the call leaves them (the
  records it extracted have lost \<^verbatim>\<open>_msg_type\<close>), or raises what \<^verbatim>\<open>extract_content\<close>
  raises.
\<close>

fun generate_title :: "pylib \<Rightarrow> pydict list \<Rightarrow> string \<Rightarrow> error + (string \<times> pydict list)" where
  "generate_title L [] session_id = Inr (''Conversation '' @ take 8 session_id, [])"
| "generate_title L (msg # msgs) session_id =
     (if map_of msg ''role'' = Some (JStr ''user'') then
        (case extract_content L msg of
           (Inl e, msg') \<Rightarrow> Inl e
         | (Inr c, msg') \<Rightarrow>
             (case title_candidate c of
                Some title \<Rightarrow> Inr (title, msg' # msgs)
              | None \<Rightarrow> keep msg' (generate_title L msgs session_id)))
      else keep msg (generate_title L msgs session_id))"

text \<open>The dict \<^verbatim>\<open>keywords\<close> of \<^verbatim>\<open>extract_tags\<close>, in the order the literal lists it.\<close>

definition keyword_table :: "(string \<times> string) list" where
  "keyword_table =
     [(''bug'', ''bug-fix''),
      (''fix'', ''bug-fix''),
      (''feature'', ''feature-development''),
      (''implement'', ''feature-development''),
      (''refactor'', ''refactoring''),
      (''test'', ''testing''),
      (''review'', ''code-review''),
      (''deploy'', ''deployment''),
      (''debug'', ''debugging''),
      (''api'', ''api''),
      (''documentation'', ''documentation''),
      (''help'', ''help''),
      (''explain'', ''explanation'')]"

text \<open>The first loop of \<^verbatim>\<open>extract_tags\<close> (lines 161-165): \<open>all_text\<close> and the records after.\<close>

fun gather_text :: "pylib \<Rightarrow> pydict list \<Rightarrow> error + (string \<times> pydict list)" where
  "gather_text L [] = Inr ([], [])"
| "gather_text L (msg # msgs) =
     (case extract_content L msg of
        (Inl e, msg') \<Rightarrow> Inl e
      | (Inr c, msg') \<Rightarrow>
          (case gather_text L msgs of
             Inl e \<Rightarrow> Inl e
           | Inr (rest, msgs') \<Rightarrow>
               Inr ((case c of
                       None \<Rightarrow> []
                     | Some content \<Rightarrow> if content \<noteq> [] then lower content @ '' '' else [])
                    @ rest,
                    msg' # msgs')))"

text \<open>The second loop (lines 185-187), with \<open>tags\<close> as accumulator.\<close>

fun scan_keywords :: "string \<Rightarrow> (string \<times> string) list \<Rightarrow> string list \<Rightarrow> string list" where
  "scan_keywords all_text [] tags = tags"
| "scan_keywords all_text ((keyword, tag) # rest) tags =
     scan_keywords all_text rest
       (if sublist keyword all_text \<and> tag \<notin> set tags then tags @ [tag] else tags)"

definition extract_tags :: "pylib \<Rightarrow> pydict list \<Rightarrow> error + (string list \<times> pydict list)" where
  "extract_tags L messages =
     (case gather_text L messages of
        Inl e \<Rightarrow> Inl e
      | Inr (all_text, messages') \<Rightarrow> Inr (take 5 (scan_keywords all_text keyword_table []), messages'))"

section \<open>Document Renderer\<close>

text \<open>
  The metadata dict, one field per key the script uses; \<open>None\<close> is a key that is absent
  (for \<^verbatim>\<open>cwd\<close> also the value \<^verbatim>\<open>None\<close>, which \<^verbatim>\<open>if cwd:\<close> treats alike). The default of
  the date, \<^verbatim>\<open>datetime.now().strftime('%Y-%m-%d')\<close>, is the parameter \<open>today\<close>.
\<close>

record metadata =
  md_session_id :: "string option"
  md_date :: "string option"
  md_message_count :: "nat option"
  md_cwd :: "string option"
  md_title :: "string option"
  md_tags :: "string list option"

definition get_or :: "'a option \<Rightarrow> 'a \<Rightarrow> 'a" where
  "get_or v dflt = (case v of None \<Rightarrow> dflt | Some x \<Rightarrow> x)"

text \<open>Python's truth value of a decoded value.\<close>

definition truthy :: "json \<Rightarrow> bool" where
  "truthy v =
     (case v of
        JNull \<Rightarrow> False
      | JBool b \<Rightarrow> b
      | JInt i \<Rightarrow> i \<noteq> 0
      | JFloat bits \<Rightarrow> bits \<noteq> 0 \<and> bits \<noteq> 2 ^ 63
      | JStr s \<Rightarrow> s \<noteq> []
      | JArr xs \<Rightarrow> xs \<noteq> []
      | JObj d \<Rightarrow> d \<noteq> [])"

text \<open>The heading of a record (lines 233-245), \<open>None\<close> when the record is skipped.\<close>

definition role_heading :: "pydict \<Rightarrow> string option" where
  "role_heading msg =
     (let role_value = (if truthy (dict_get msg ''role'' JNull)
                        then dict_get msg ''role'' JNull
                        else dict_get msg ''type'' JNull)
      in if role_value = JStr ''user'' then Some ''## User''
         else if role_value = JStr ''assistant'' then Some ''## Claude''
         else if role_value = JStr ''tool_use'' then Some ''## Tool Use''
         else if role_value = JStr ''tool_result'' then Some ''## Tool Result''
         else None)"

record render_state =
  current_role :: "string option"
  current_content :: "string list"
  output_lines :: "string list"

text \<open>One message whose content is not empty (lines 251-266).\<close>

definition add_content :: "string \<Rightarrow> string \<Rightarrow> render_state \<Rightarrow> render_state" where
  "add_content role content st =
     (let st1 = (if current_role st \<noteq> None \<and> current_role st \<noteq> Some role
                 then st\<lparr>output_lines := (if current_content st \<noteq> []
                                      then output_lines st @ [join [LF] (current_content st), [], ''---'', []]
                                      else output_lines st),
                         current_content := []\<rparr>
                 else st);
          st2 = st1\<lparr>current_role := Some role\<rparr>;
          st3 = (if current_content st2 = []
                 then st2\<lparr>current_content := [role, []]\<rparr> else st2)
      in st3\<lparr>current_content := current_content st3 @ [content]\<rparr>)"

fun render_loop ::
  "pylib \<Rightarrow> pydict list \<Rightarrow> render_state \<Rightarrow> error + (render_state \<times> pydict list)" where
  "render_loop L [] st = Inr (st, [])"
| "render_loop L (msg # msgs) st =
     (case role_heading msg of
        None \<Rightarrow> keep msg (render_loop L msgs st)
      | Some role \<Rightarrow>
          (case extract_content L msg of
             (Inl e, msg') \<Rightarrow> Inl e
           | (Inr c, msg') \<Rightarrow>
               (if c = None \<or> c = Some [] then keep msg' (render_loop L msgs st)
                else keep msg' (render_loop L msgs (add_content role (the c) st)))))"

text \<open>
  \<^verbatim>\<open>to_markdown\<close>. \<^verbatim>\<open>json.dumps(tags)\<close> is \<open>json_dumps_flat\<close>; the message count is printed
  as Python prints an int.
\<close>

definition to_markdown ::
  "pylib \<Rightarrow> string \<Rightarrow> pydict list \<Rightarrow> metadata \<Rightarrow> error + (string \<times> pydict list)" where
  "to_markdown L today messages md =
     (let title = get_or (md_title md) ''Untitled Conversation'';
          date = get_or (md_date md) today;
          tags = get_or (md_tags md) [];
          session_id = get_or (md_session_id md) ''unknown'';
          cwd = get_or (md_cwd md) [];
          frontmatter =
            [''---'',
             ''title: \"'' @ title @ ''\"'',
             ''date: '' @ date,
             ''tags: '' @ json_dumps_flat L (JArr (map JStr tags)),
             ''session_id: '' @ session_id]
            @ (if cwd \<noteq> [] then [''project: '' @ cwd] else [])
            @ [''---''];
          output0 =
            [join [LF] frontmatter,
             [],
             ''# '' @ title,
             [],
             ''**Session ID**: `'' @ session_id @ ''`'',
             ''**Date**: '' @ date,
             ''**Messages**: ''
               @ py_str L (JInt (int (get_or (md_message_count md) (length messages))))]
            @ (if tags \<noteq> [] then [''**Tags**: '' @ join '', '' tags] else [])
            @ [[], ''---'', []]
      in case render_loop L messages
                \<lparr>current_role = None, current_content = [], output_lines = output0\<rparr> of
           Inl e \<Rightarrow> Inl e
         | Inr (st, messages') \<Rightarrow>
             Inr (join [LF] (if current_content st \<noteq> []
                             then output_lines st @ [join [LF] (current_content st)]
                             else output_lines st),
                  messages'))"

section \<open>Files\<close>

text \<open>
  The files the script reads and writes: a map from paths to contents. A path is the
  text that spells it, joined with \<^verbatim>\<open>/\<close>; two spellings of one path are two keys.
  Directories come in only where a file is created (\<^verbatim>\<open>save_conversation\<close> below);
  \<^verbatim>\<open>mkdir(parents=True, exist_ok=True)\<close> changes no file. Files are opened in text mode:
  reading translates \<^verbatim>\<open>\r\n\<close> and \<^verbatim>\<open>\r\<close> to \<^verbatim>\<open>\n\<close>; writing leaves \<^verbatim>\<open>\n\<close> as it is (POSIX).
\<close>

type_synonym files = "string \<rightharpoonup> string"

fun universal_newlines :: "string \<Rightarrow> string" where
  "universal_newlines [] = []"
| "universal_newlines [c] = [if c = CR then LF else c]"
| "universal_newlines (c # d # ds) =
     (if c = CR \<and> d = LF then LF # universal_newlines ds
      else if c = CR then LF # universal_newlines (d # ds)
      else c # universal_newlines (d # ds))"

text \<open>Splitting after each \<^verbatim>\<open>\n\<close>, which stays at the end of its line.\<close>

fun split_lines :: "string \<Rightarrow> string list" where
  "split_lines [] = []"
| "split_lines (c # cs) =
     (if c = LF then [LF] # split_lines cs
      else (case split_lines cs of [] \<Rightarrow> [[c]] | l # ls \<Rightarrow> (c # l) # ls))"

text \<open>\<^verbatim>\<open>f.readlines()\<close> and the lines of \<^verbatim>\<open>for line in f\<close>.\<close>

definition readlines :: "string \<Rightarrow> string list" where
  "readlines content = split_lines (universal_newlines content)"

definition path_join :: "string \<Rightarrow> string \<Rightarrow> string" where
  "path_join dir name = dir @ ''/'' @ name"

text \<open>
  What \<^verbatim>\<open>parse_transcript\<close> finds at a path; \<^verbatim>\<open>open('')\<close> raises \<^verbatim>\<open>FileNotFoundError\<close>.
\<close>

definition open_source :: "files \<Rightarrow> string \<Rightarrow> log_source" where
  "open_source fs path =
     (if path = [] then NotFound
      else (case fs path of None \<Rightarrow> NotFound | Some content \<Rightarrow> Content (readlines content)))"

section \<open>Index Updater\<close>

definition index_header :: "string list" where
  "index_header =
     [''# Conversation Index'' @ [LF],
      [LF],
      ''This index contains all exported Claude Code conversations.'' @ [LF],
      [LF],
      ''## Conversations'' @ [LF],
      [LF]]"

text \<open>The entry line (lines 294-307).\<close>

definition index_entry :: "string \<Rightarrow> string \<Rightarrow> metadata \<Rightarrow> string" where
  "index_entry today session_id md =
     (let date = get_or (md_date md) today;
          title = get_or (md_title md) ''Untitled'';
          tags = get_or (md_tags md) [];
          year = take 4 date;
          month = take 2 (drop 5 date);
          day = take 2 (drop 8 date);
          rel_path = year @ ''/'' @ month @ ''-'' @ day @ ''/'' @ session_id @ ''.md''
      in ''- ['' @ date @ ''] ['' @ title @ ''](''@ rel_path @ '')''
         @ (if tags \<noteq> [] then '' - '' @ join '', '' tags else [])
         @ [LF])"

text \<open>
  The search of lines 310-314, \<^verbatim>\<open>enumerate\<close> counting from \<open>i\<close>: the index of the first
  line that contains the marker.
\<close>

fun find_marker :: "string list \<Rightarrow> nat \<Rightarrow> nat option" where
  "find_marker [] i = None"
| "find_marker (line # rest) i =
     (if sublist ''## Conversations'' line then Some i else find_marker rest (Suc i))"

definition insert_pos :: "string list \<Rightarrow> nat" where
  "insert_pos index_content =
     (case find_marker index_content 0 of
        Some i \<Rightarrow> i + 2
      | None \<Rightarrow> length index_content)"

text \<open>
  \<^verbatim>\<open>list.insert(pos, x)\<close> for \<open>pos \<ge> 0\<close>: a position beyond the end appends.
\<close>

definition list_insert :: "nat \<Rightarrow> 'a \<Rightarrow> 'a list \<Rightarrow> 'a list" where
  "list_insert pos x xs = take pos xs @ x # drop pos xs"

definition update_index :: "string \<Rightarrow> files \<Rightarrow> string \<Rightarrow> string \<Rightarrow> metadata \<Rightarrow> files" where
  "update_index today fs output_dir session_id md =
     (let index_path = path_join output_dir ''index.md'';
          index_content = (case fs index_path of
                             None \<Rightarrow> index_header
                           | Some content \<Rightarrow> readlines content);
          entry = index_entry today session_id md
      in fs(index_path \<mapsto> concat (list_insert (insert_pos index_content) entry index_content)))"

text \<open>
  The directory of a path (\<^verbatim>\<open>Path.parent\<close>).
\<close>

definition dirname :: "string \<Rightarrow> string" where
  "dirname p =
     (if CHR ''/'' \<notin> set p then ''.''
      else (let d = rev (drop 1 (dropWhile (\<lambda>c. c \<noteq> CHR ''/'') (rev p)))
            in if d = [] then ''/'' else d))"

text \<open>
  \<^verbatim>\<open>save_conversation\<close> (lines 323-353). \<^verbatim>\<open>mkdir(parents=True, exist_ok=True)\<close> creates the
  directory of the date, so a document whose name has no \<^verbatim>\<open>/\<close> can be opened there. A
  session identifier with a \<^verbatim>\<open>/\<close> in it names a file of another directory, which
  \<^verbatim>\<open>mkdir\<close> has not created: \<^verbatim>\<open>open(filepath, 'w')\<close> raises \<^verbatim>\<open>FileNotFoundError\<close> unless
  that directory is there already, which \<open>dir_exists\<close> tells. When \<^verbatim>\<open>open\<close> raises, no
  file has been written and the index is not updated.
\<close>

definition save_conversation ::
  "string \<Rightarrow> (string \<Rightarrow> bool) \<Rightarrow> files \<Rightarrow> string \<Rightarrow> string \<Rightarrow> string \<Rightarrow> metadata
     \<Rightarrow> error + files" where
  "save_conversation today dir_exists fs markdown output_dir session_id md =
     (let date = get_or (md_date md) today;
          year = take 4 date;
          month = take 2 (drop 5 date);
          day = take 2 (drop 8 date);
          date_dir = path_join (path_join output_dir year) (month @ ''-'' @ day);
          filepath = path_join date_dir (session_id @ ''.md'')
      in if CHR ''/'' \<in> set session_id \<and> \<not> dir_exists (dirname filepath)
         then Inl FileNotFoundError
         else Inr (update_index today (fs(filepath \<mapsto> markdown)) output_dir session_id md))"

section \<open>Entry point\<close>

text \<open>
  The steps both modes share (lines 389-399 and 424-440): metadata, title, tags,
  document, save. Each step hands the records on as the step before left them. An
  exception of any step leaves the files untouched.
\<close>

definition export ::
  "pylib \<Rightarrow> string \<Rightarrow> (string \<Rightarrow> bool) \<Rightarrow> files \<Rightarrow> pydict list \<Rightarrow> string \<Rightarrow> string \<Rightarrow> string option
     \<Rightarrow> error + files" where
  "export L today dir_exists fs messages session_id output_dir cwd =
     (case generate_title L messages session_id of
        Inl e \<Rightarrow> Inl e
      | Inr (title, messages1) \<Rightarrow>
          (case extract_tags L messages1 of
             Inl e \<Rightarrow> Inl e
           | Inr (tags, messages2) \<Rightarrow>
               (let md = \<lparr>md_session_id = Some session_id, md_date = Some today,
                          md_message_count = Some (length messages), md_cwd = cwd,
                          md_title = Some title, md_tags = Some tags\<rparr>
                in case to_markdown L today messages2 md of
                     Inl e \<Rightarrow> Inl e
                   | Inr (markdown, messages3) \<Rightarrow>
                       save_conversation today dir_exists fs markdown output_dir session_id md)))"

text \<open>
  The input of one run. In triggered mode (no arguments, standard input not a terminal)
  it is the payload read from standard input: \<open>None\<close> when \<^verbatim>\<open>json.load\<close> raises
  \<^verbatim>\<open>JSONDecodeError\<close>, else its three fields, each a str or absent. In direct mode it is
  what the command line gives for each option, \<open>None\<close> for an option that is not given.
\<close>

record hook_data =
  hook_session_id :: "string option"
  hook_transcript_path :: "string option"
  hook_cwd :: "string option"

record cli_args =
  arg_session_id :: "string option"
  arg_transcript :: "string option"
  arg_output :: "string option"
  arg_cwd :: "string option"

datatype invocation = Hook "hook_data option" | Direct cli_args

text \<open>
  How the process ends: \<^verbatim>\<open>sys.exit(main())\<close> with the value \<open>main\<close> returns, the exit of
  \<^verbatim>\<open>argparse\<close>, or an exception nobody catches, for which the interpreter prints a
  traceback and exits with status 1.
\<close>

datatype outcome = Exit nat | Uncaught error

definition completion_code :: "outcome \<Rightarrow> nat" where
  "completion_code out = (case out of Exit n \<Rightarrow> n | Uncaught e \<Rightarrow> 1)"

text \<open>
  The test of lines 380-383: the marker file exists and its text contains the session
  identifier.
\<close>

definition already_exported :: "files \<Rightarrow> string \<Rightarrow> string \<Rightarrow> bool" where
  "already_exported fs state_file session_id =
     (case fs state_file of
        None \<Rightarrow> False
      | Some content \<Rightarrow> sublist session_id (universal_newlines content))"

text \<open>Lines 402-403: append the identifier and a newline to the marker file.\<close>

definition record_exported :: "files \<Rightarrow> string \<Rightarrow> string \<Rightarrow> files" where
  "record_exported fs state_file session_id =
     fs(state_file \<mapsto> get_or (fs state_file) [] @ session_id @ [LF])"

text \<open>
  \<^verbatim>\<open>main\<close>. In direct mode \<^verbatim>\<open>parse_args\<close> ends the process with status 2 when one of the
  three options declared \<^verbatim>\<open>required=True\<close> is missing (\<^verbatim>\<open>ArgumentParser.error\<close>).
\<close>

definition main ::
  "pylib \<Rightarrow> string \<Rightarrow> (string \<Rightarrow> bool) \<Rightarrow> files \<Rightarrow> invocation \<Rightarrow> outcome \<times> files" where
  "main L today dir_exists fs run =
     (case run of
        Hook None \<Rightarrow> (Exit 1, fs)
      | Hook (Some hook) \<Rightarrow>
          (let session_id = get_or (hook_session_id hook) [];
               transcript_path = get_or (hook_transcript_path hook) [];
               cwd = get_or (hook_cwd hook) []
           in if session_id = [] \<or> cwd = [] then (Exit 1, fs)
              else
                (let output_dir = cwd @ ''/.claude/history'';
                     state_file = output_dir @ ''/.exported_state''
                 in if already_exported fs state_file session_id then (Exit 0, fs)
                    else
                      (case (if transcript_path \<noteq> [] \<and> fs transcript_path \<noteq> None then
                               (let messages = parse_transcript L (open_source fs transcript_path)
                                in if messages \<noteq> []
                                   then export L today dir_exists fs messages session_id output_dir (Some cwd)
                                   else Inr fs)
                             else Inr fs) of
                         Inl e \<Rightarrow> (Uncaught e, fs)
                       | Inr fs' \<Rightarrow> (Exit 0, record_exported fs' state_file session_id))))
      | Direct args \<Rightarrow>
          (case (arg_session_id args, arg_transcript args, arg_output args) of
             (Some session_id, Some transcript, Some output_dir) \<Rightarrow>
               (let messages = parse_transcript L (open_source fs transcript)
                in if messages = [] then (Exit 1, fs)
                   else (case export L today dir_exists fs messages session_id output_dir (arg_cwd args) of
                           Inl e \<Rightarrow> (Uncaught e, fs)
                         | Inr fs' \<Rightarrow> (Exit 0, fs')))
           | _ \<Rightarrow> (Exit 2, fs)))"

section \<open>Reading without exceptions\<close>

text \<open>
  For the Log Reader's properties: whether the loop body raises on a line, and the
  records a line contributes when it does not.
\<close>

definition line_raises :: "pylib \<Rightarrow> string \<Rightarrow> bool" where
  "line_raises L l =
     (strip l \<noteq> [] \<and>
      (case json_loads L (strip l) of
         None \<Rightarrow> False
       | Some data \<Rightarrow> (case select_record data of Inl e \<Rightarrow> True | Inr r \<Rightarrow> False)))"

definition line_record :: "pylib \<Rightarrow> string \<Rightarrow> pydict list" where
  "line_record L l =
     (if strip l = [] then []
      else (case json_loads L (strip l) of
              None \<Rightarrow> []
            | Some data \<Rightarrow> (case select_record data of Inr (Some r) \<Rightarrow> [r] | _ \<Rightarrow> [])))"

section \<open>Order of the keyword table\<close>

text \<open>
  For the properties of tag inference: the position in a table of the first entry whose
  tag is \<open>t\<close> and whose keyword occurs in the text \<open>a\<close> (the length of the table when
  there is none).
\<close>

definition first_match :: "string \<Rightarrow> (string \<times> string) list \<Rightarrow> string \<Rightarrow> nat" where
  "first_match a kts t = length (takeWhile (\<lambda>(k, t'). \<not> (t' = t \<and> sublist k a)) kts)"

section \<open>Title inference in the words of its description\<close>

text \<open>
  A content qualifies when it is not empty and, trimmed, neither starts with one of the
  markers nor is shorter than 20 characters. Its title is its first line, trimmed, cut
  to 47 characters and an ellipsis when longer than 50.
\<close>

definition qualifies :: "string option \<Rightarrow> bool" where
  "qualifies c =
     (case c of
        None \<Rightarrow> False
      | Some content \<Rightarrow>
          content \<noteq> [] \<and> \<not> (\<exists>p \<in> set skip_prefixes. prefix p (strip content))
          \<and> 20 \<le> length (strip content))"

definition first_line :: "string \<Rightarrow> string" where
  "first_line content = strip (takeWhile (\<lambda>ch. ch \<noteq> LF) (strip content))"

definition title_of :: "string \<Rightarrow> string" where
  "title_of content =
     (if length (first_line content) > 50 then take 47 (first_line content) @ ''...''
      else first_line content)"

section \<open>Complete lines\<close>

text \<open>
  A line as \<^verbatim>\<open>readlines\<close> gives it back after \<^verbatim>\<open>writelines\<close>: it ends with its only
  \<^verbatim>\<open>\n\<close> and holds no \<^verbatim>\<open>\r\<close>.
\<close>

definition complete_line :: "string \<Rightarrow> bool" where
  "complete_line l = (l \<noteq> [] \<and> last l = LF \<and> LF \<notin> set (butlast l) \<and> CR \<notin> set l)"

section \<open>Completion codes in the words of their description\<close>




section \<open>Properties\<close>

subsection \<open>Sample library values\<close>

text \<open>
  The closed examples below need a concrete library. \<open>sample_lib\<close> agrees with Python on
  the inputs the examples use: it decodes the three lines below as \<^verbatim>\<open>json.loads\<close> does
  and rejects every other line (the examples contain no other line that decodes).
\<close>

definition line_tool_use :: string where
  "line_tool_use = ''{\"type\": \"tool_use\", \"name\": \"Read\"}''"

definition line_user_fix :: string where
  "line_user_fix = ''{\"type\": \"user\", \"message\": {\"content\": \"please fix the bug\"}}''"

definition line_number :: string where
  "line_number = ''42''"

definition sample_loads :: "string \<Rightarrow> json option" where
  "sample_loads s =
     (if s = line_number then Some (JInt 42)
      else if s = line_tool_use
        then Some (JObj [(''type'', JStr ''tool_use''), (''name'', JStr ''Read'')])
      else if s = line_user_fix
        then Some (JObj [(''type'', JStr ''user''),
                         (''message'', JObj [(''content'', JStr ''please fix the bug'')])])
      else None)"

definition sample_lib :: pylib where
  "sample_lib =
     \<lparr>json_loads = sample_loads, py_repr = (\<lambda>v. []), json_dumps = (\<lambda>v. []),
      json_dumps_flat = (\<lambda>v. [])\<rparr>"

text \<open>A machine where the directories a document could go to are all still to be created.\<close>

definition no_directory :: "string \<Rightarrow> bool" where
  "no_directory d = False"

definition md_a :: metadata where
  "md_a = \<lparr>md_session_id = Some ''s1'', md_date = Some ''2026-03-01'',
            md_message_count = Some 2, md_cwd = None, md_title = Some ''First'',
            md_tags = Some [''testing'']\<rparr>"

definition md_b :: metadata where
  "md_b = \<lparr>md_session_id = Some ''s2'', md_date = Some ''2025-01-01'',
            md_message_count = Some 3, md_cwd = None, md_title = Some ''Second'',
            md_tags = Some []\<rparr>"

text \<open>An index that holds only the fixed header, and one whose last line is the marker.\<close>

definition header_index :: files where
  "header_index = [''out/index.md'' \<mapsto> concat index_header]"

definition marker_last_index :: files where
  "marker_last_index = [''out/index.md'' \<mapsto> ''## Conversations'' @ [LF]]"

text \<open>
  A triggered run for session \<^verbatim>\<open>abc\<close>, and two file states: one whose marker file records
  the session \<^verbatim>\<open>abcdef\<close>, one without a marker file.
\<close>

definition hook_abc :: hook_data where
  "hook_abc = \<lparr>hook_session_id = Some ''abc'', hook_transcript_path = Some ''t.jsonl'',
               hook_cwd = Some ''p''\<rparr>"

definition recorded_abcdef :: files where
  "recorded_abcdef =
     [''t.jsonl'' \<mapsto> line_user_fix @ [LF],
      ''p/.claude/history/.exported_state'' \<mapsto> ''abcdef'' @ [LF]]"

definition nothing_recorded :: files where
  "nothing_recorded = [''t.jsonl'' \<mapsto> line_user_fix @ [LF]]"

text \<open>A triggered run whose session identifier has a \<^verbatim>\<open>/\<close> in it.\<close>

definition hook_slash :: hook_data where
  "hook_slash = \<lparr>hook_session_id = Some ''a/b'', hook_transcript_path = Some ''t.jsonl'',
                 hook_cwd = Some ''p''\<rparr>"

subsection \<open>Standalone tool results\<close>

lemma result_blocks_delete:
  "result_blocks L (AList.delete ''_msg_type'' m) = result_blocks L m"
  by (simp add: result_blocks_def AList.delete_conv')

text \<open>
  C4 (as the code has it). A record whose \<^verbatim>\<open>type\<close> is \<^verbatim>\<open>tool_result\<close> and that is not
  dispatched as a user or assistant message (neither its \<^verbatim>\<open>_msg_type\<close> nor its \<^verbatim>\<open>role\<close>
  says so) is rendered as a header naming the tool-use identifier, followed by the
  content: a str content in one verbatim block; a list content as one verbatim block
  for each text sub-block, in order, where \<open>ts\<close> are the texts of its text sub-blocks.
\<close>

theorem tool_result_one_block_per_text:
  assumes "map_of m ''type'' = Some (JStr ''tool_result'')"
    and "map_of m ''_msg_type'' \<notin> {Some (JStr ''user''), Some (JStr ''assistant'')}"
    and "map_of m ''role'' \<notin> {Some (JStr ''user''), Some (JStr ''assistant'')}"
  shows "(\<forall>s. map_of m ''content'' = Some (JStr s) \<longrightarrow>
            fst (extract_content L m) =
              Inr (Some (''**Tool Result**: `''
                         @ py_str L (dict_get m ''tool_use_id'' (JStr ''unknown''))
                         @ ''`'' @ [LF] @ verbatim s)))
       \<and> (\<forall>items ts. map_of m ''content'' = Some (JArr items)
              \<and> concat (map text_item items) = map JStr ts \<longrightarrow>
            fst (extract_content L m) =
              Inr (Some (''**Tool Result**: `''
                         @ py_str L (dict_get m ''tool_use_id'' (JStr ''unknown''))
                         @ ''`'' @ [LF] @ concat (map verbatim ts))))"
proof -
  have sel: "fst (extract_content L m) =
      Inr (Some (''**Tool Result**: `''
                 @ py_str L (dict_get m ''tool_use_id'' (JStr ''unknown''))
                 @ ''`'' @ [LF] @ result_blocks L m))"
    using assms
    by (auto simp: extract_content_def Let_def dict_get_def AList.delete_conv'
             result_blocks_delete split: option.splits)
  have str: "result_blocks L m = verbatim s" if "map_of m ''content'' = Some (JStr s)" for s
    using that by (simp add: result_blocks_def)
  have arr: "result_blocks L m = concat (map verbatim ts)"
    if "map_of m ''content'' = Some (JArr items)"
      and "concat (map text_item items) = map JStr ts" for items ts
    using that by (simp add: result_blocks_def py_str_def comp_def)
  show ?thesis
    using sel str arr by simp
qed

theorem tool_result_one_block_per_text_witness:
  "fst (extract_content sample_lib
          [(''type'', JStr ''tool_result''), (''tool_use_id'', JStr ''t1''),
           (''content'', JArr [JObj [(''type'', JStr ''text''), (''text'', JStr ''a'')],
                               JObj [(''type'', JStr ''text''), (''text'', JStr ''b'')]])])
   = Inr (Some (''**Tool Result**: `t1`'' @ [LF] @ verbatim ''a'' @ verbatim ''b''))"
proof -
  let ?items = "[JObj [(''type'', JStr ''text''), (''text'', JStr ''a'')],
                 JObj [(''type'', JStr ''text''), (''text'', JStr ''b'')]]"
  let ?m = "[(''type'', JStr ''tool_result''), (''tool_use_id'', JStr ''t1''),
             (''content'', JArr ?items)]"
  have "\<forall>items ts. map_of ?m ''content'' = Some (JArr items)
              \<and> concat (map text_item items) = map JStr ts \<longrightarrow>
          fst (extract_content sample_lib ?m) =
            Inr (Some (''**Tool Result**: `''
                       @ py_str sample_lib (dict_get ?m ''tool_use_id'' (JStr ''unknown''))
                       @ ''`'' @ [LF] @ concat (map verbatim ts)))"
    using tool_result_one_block_per_text [of ?m sample_lib] by simp
  from this [rule_format, of ?items "[''a'', ''b'']"]
  show ?thesis
    by (simp add: text_item_def dict_get_def py_str_def)
qed

text \<open>
  C4 as stated fails: two text sub-blocks are not concatenated into one verbatim block
  (neither directly nor joined by line breaks); the fragment holds two blocks.
\<close>

theorem tool_result_single_block_counterexample:
  "fst (extract_content sample_lib
          [(''type'', JStr ''tool_result''), (''tool_use_id'', JStr ''t1''),
           (''content'', JArr [JObj [(''type'', JStr ''text''), (''text'', JStr ''a'')],
                               JObj [(''type'', JStr ''text''), (''text'', JStr ''b'')]])])
     = Inr (Some (''**Tool Result**: `t1`'' @ [LF] @ verbatim ''a'' @ verbatim ''b''))
   \<and> ''**Tool Result**: `t1`'' @ [LF] @ verbatim ''a'' @ verbatim ''b''
       \<noteq> ''**Tool Result**: `t1`'' @ [LF] @ verbatim (''a'' @ ''b'')
   \<and> ''**Tool Result**: `t1`'' @ [LF] @ verbatim ''a'' @ verbatim ''b''
       \<noteq> ''**Tool Result**: `t1`'' @ [LF] @ verbatim (join [LF] [''a'', ''b''])"
  by code_simp

subsection \<open>Log Reader\<close>

lemma read_lines_resilient:
  "\<forall>l \<in> set ls. \<not> line_raises L l \<Longrightarrow>
   read_lines L ls acc = Inr (acc @ concat (map (line_record L) ls))"
proof (induction ls arbitrary: acc)
  case Nil
  then show ?case by simp
next
  case (Cons l ls)
  then show ?case
    by (auto simp: line_raises_def line_record_def Let_def split: option.splits sum.splits)
qed

lemma parse_transcript_resilient:
  "\<forall>l \<in> set ls. \<not> line_raises L l \<Longrightarrow>
   parse_transcript L (Content ls) = concat (map (line_record L) ls)"
  by (simp add: parse_transcript_def read_lines_resilient)

lemma parse_transcript_only_malformed:
  assumes "\<forall>l \<in> set ls. json_loads L (strip l) = None"
  shows "parse_transcript L (Content ls) = []"
proof -
  have "\<forall>l \<in> set ls. \<not> line_raises L l"
    using assms by (simp add: line_raises_def)
  moreover have "concat (map (line_record L) ls) = []"
    using assms by (auto simp: line_record_def)
  ultimately show ?thesis
    by (simp add: parse_transcript_resilient)
qed

text \<open>
  C1 on the code. The first line is a record of kind \<^verbatim>\<open>tool_use\<close>; read alone it is
  returned. The second line decodes to the number 42, which is not a dict:
  \<^verbatim>\<open>data.get\<close> raises \<^verbatim>\<open>AttributeError\<close>, the inner handler catches only
  \<^verbatim>\<open>JSONDecodeError\<close>, and the outer handler returns the empty list. The record of
  the first line is lost.
\<close>

theorem parse_transcript_non_object_line_loses_records:
  "parse_transcript sample_lib (Content [line_tool_use @ [LF]])
     = [[(''type'', JStr ''tool_use''), (''name'', JStr ''Read'')]]
   \<and> parse_transcript sample_lib (Content [line_tool_use @ [LF], line_number @ [LF]]) = []"
  by code_simp

subsection \<open>Records change under extraction\<close>

lemma extract_content_record:
  "snd (extract_content L m) = AList.delete ''_msg_type'' m"
  by (simp add: extract_content_def Let_def)

lemma extract_content_other_fields:
  "k \<noteq> ''_msg_type'' \<Longrightarrow> map_of (snd (extract_content L m)) k = map_of m k"
  by (simp add: extract_content_record AList.delete_conv')

lemma extract_content_unmarked:
  "map_of m ''_msg_type'' = None \<Longrightarrow> snd (extract_content L m) = m"
  by (simp add: extract_content_record map_of_eq_None_iff)

lemma extract_content_again:
  assumes "\<forall>v. map_of m ''_msg_type'' = Some v \<longrightarrow> map_of m ''role'' = Some v"
  shows "fst (extract_content L (snd (extract_content L m))) = fst (extract_content L m)"
  using assms
  by (cases "map_of m ''_msg_type''")
     (auto simp: extract_content_def Let_def AList.delete_conv' AList.delete_idem dict_get_def)

text \<open>
  C7 on the code. The Log Reader turns the line into a record tagged
  \<^verbatim>\<open>_msg_type\<close>; \<^verbatim>\<open>extract_content\<close> pops that key, so the record after the call is not
  the record before it.
\<close>

theorem extract_content_removes_msg_type:
  "parse_transcript sample_lib (Content [line_user_fix @ [LF]])
     = [[(''content'', JStr ''please fix the bug''), (''_msg_type'', JStr ''user'')]]
   \<and> snd (extract_content sample_lib
             [(''content'', JStr ''please fix the bug''), (''_msg_type'', JStr ''user'')])
     = [(''content'', JStr ''please fix the bug'')]"
  by code_simp

text \<open>
  C6 on the code. On the record of the same line the first run of \<^verbatim>\<open>extract_tags\<close>
  finds the tag \<^verbatim>\<open>bug-fix\<close> and leaves the record without \<^verbatim>\<open>_msg_type\<close>; the second
  run, on the record as the first left it, finds no tag.
\<close>

theorem extract_tags_second_run_differs:
  "extract_tags sample_lib
     [[(''content'', JStr ''please fix the bug''), (''_msg_type'', JStr ''user'')]]
     = Inr ([''bug-fix''], [[(''content'', JStr ''please fix the bug'')]])
   \<and> extract_tags sample_lib [[(''content'', JStr ''please fix the bug'')]]
     = Inr ([], [[(''content'', JStr ''please fix the bug'')]])"
  by code_simp

subsection \<open>Tag inference\<close>

lemma first_match_Cons:
  "first_match a ((k, t) # rest) s = (if t = s \<and> sublist k a then 0 else Suc (first_match a rest s))"
  by (simp add: first_match_def)

lemma scan_keywords_spec:
  "\<exists>new. scan_keywords a kts acc = acc @ new \<and> distinct new
     \<and> set new = {t. \<exists>k. (k, t) \<in> set kts \<and> sublist k a} - set acc
     \<and> sorted_wrt (\<lambda>s t. first_match a kts s < first_match a kts t) new"
proof (induction kts arbitrary: acc)
  case Nil
  then show ?case by simp
next
  case (Cons kt rest)
  obtain k t where kt: "kt = (k, t)" by (cases kt)
  let ?acc = "if sublist k a \<and> t \<notin> set acc then acc @ [t] else acc"
  from Cons.IH [of ?acc] obtain new where
    eq: "scan_keywords a rest ?acc = ?acc @ new" and d: "distinct new"
    and s: "set new = {t. \<exists>k. (k, t) \<in> set rest \<and> sublist k a} - set ?acc"
    and o: "sorted_wrt (\<lambda>s t. first_match a rest s < first_match a rest t) new"
    by blast
  have shift: "first_match a (kt # rest) x = Suc (first_match a rest x)" if "x \<in> set new" for x
    using that s by (auto simp: kt first_match_Cons split: if_splits)
  have o': "sorted_wrt (\<lambda>s t. first_match a (kt # rest) s < first_match a (kt # rest) t) new"
    using o shift by (auto elim!: sorted_wrt_mono_rel [rotated])
  show ?case
  proof (cases "sublist k a \<and> t \<notin> set acc")
    case True
    have "scan_keywords a (kt # rest) acc = acc @ (t # new)"
      using eq True by (simp add: kt)
    moreover have "distinct (t # new)"
      using d s True by auto
    moreover have "set (t # new) = {t. \<exists>k. (k, t) \<in> set (kt # rest) \<and> sublist k a} - set acc"
      using s True by (auto simp: kt)
    moreover have "sorted_wrt (\<lambda>s t. first_match a (kt # rest) s < first_match a (kt # rest) t) (t # new)"
      using o' shift True by (auto simp: kt first_match_Cons)
    ultimately show ?thesis by blast
  next
    case False
    have "scan_keywords a (kt # rest) acc = acc @ new"
      using eq False by (auto simp: kt)
    moreover have "set new = {t. \<exists>k. (k, t) \<in> set (kt # rest) \<and> sublist k a} - set acc"
      using s False by (auto simp: kt)
    ultimately show ?thesis using d o' by blast
  qed
qed

lemma extract_tags_Inr:
  assumes "extract_tags L messages = Inr (tags, messages')"
  obtains all_text where "gather_text L messages = Inr (all_text, messages')"
    and "tags = take 5 (scan_keywords all_text keyword_table [])"
  using assms by (auto simp: extract_tags_def split: sum.splits)

text \<open>
  C5. When \<^verbatim>\<open>extract_tags\<close> returns, no tag occurs twice in its list, the list has at
  most 5 tags, every tag in it has a keyword of the table that occurs in the gathered
  text, and the tags stand in the order in which their first matching keyword appears in
  the table.
\<close>

theorem extract_tags_distinct_ordered_capped:
  assumes "extract_tags L messages = Inr (tags, messages')"
  shows "distinct tags \<and> length tags \<le> 5
     \<and> (\<exists>all_text. gather_text L messages = Inr (all_text, messages')
           \<and> (\<forall>t \<in> set tags. \<exists>k. (k, t) \<in> set keyword_table \<and> sublist k all_text)
           \<and> sorted_wrt (\<lambda>s t. first_match all_text keyword_table s
                                  < first_match all_text keyword_table t) tags)"
proof -
  from assms obtain all_text where g: "gather_text L messages = Inr (all_text, messages')"
    and t: "tags = take 5 (scan_keywords all_text keyword_table [])"
    by (rule extract_tags_Inr)
  from scan_keywords_spec [of all_text keyword_table "[]"] obtain new where
    eq: "scan_keywords all_text keyword_table [] = new" and d: "distinct new"
    and s: "set new = {t. \<exists>k. (k, t) \<in> set keyword_table \<and> sublist k all_text}"
    and o: "sorted_wrt (\<lambda>s t. first_match all_text keyword_table s
                              < first_match all_text keyword_table t) new"
    by auto
  have tags: "tags = take 5 new" using t eq by simp
  have "distinct tags" using d tags by simp
  moreover have "length tags \<le> 5" using tags by simp
  moreover have "\<forall>t \<in> set tags. \<exists>k. (k, t) \<in> set keyword_table \<and> sublist k all_text"
    using s tags by (auto dest: in_set_takeD)
  moreover have "sorted_wrt (\<lambda>s t. first_match all_text keyword_table s
                                  < first_match all_text keyword_table t) tags"
    using o tags by (simp add: sorted_wrt_take)
  ultimately show ?thesis using g by blast
qed

theorem extract_tags_distinct_ordered_capped_witness:
  "extract_tags sample_lib
     [[(''role'', JStr ''user''), (''content'', JStr ''debug the fix, then test'')]]
     = Inr ([''bug-fix'', ''testing'', ''debugging''],
            [[(''role'', JStr ''user''), (''content'', JStr ''debug the fix, then test'')]])
   \<and> distinct [''bug-fix'', ''testing'', ''debugging'']
   \<and> length [''bug-fix'', ''testing'', ''debugging''] \<le> 5
   \<and> (\<exists>all_text.
         gather_text sample_lib
           [[(''role'', JStr ''user''), (''content'', JStr ''debug the fix, then test'')]]
           = Inr (all_text,
                  [[(''role'', JStr ''user''), (''content'', JStr ''debug the fix, then test'')]])
         \<and> (\<forall>t \<in> set [''bug-fix'', ''testing'', ''debugging''].
                \<exists>k. (k, t) \<in> set keyword_table \<and> sublist k all_text)
         \<and> sorted_wrt (\<lambda>s t. first_match all_text keyword_table s
                                < first_match all_text keyword_table t)
               [''bug-fix'', ''testing'', ''debugging''])"
proof -
  have e: "extract_tags sample_lib
     [[(''role'', JStr ''user''), (''content'', JStr ''debug the fix, then test'')]]
     = Inr ([''bug-fix'', ''testing'', ''debugging''],
            [[(''role'', JStr ''user''), (''content'', JStr ''debug the fix, then test'')]])"
    by code_simp
  from extract_tags_distinct_ordered_capped [OF e] e show ?thesis
    by blast
qed

text \<open>
  C10 (as the code has it). A keyword matches as a substring of the gathered text, also
  inside a longer word, and its tag is in the result unless the result is full: then it
  holds five tags whose first matching keywords stand earlier in the table.
\<close>

theorem extract_tags_substring_unless_full:
  assumes "extract_tags L messages = Inr (tags, messages')"
    and "gather_text L messages = Inr (all_text, messages')"
    and "(k, t) \<in> set keyword_table"
    and "sublist k all_text"
  shows "t \<in> set tags
     \<or> (length tags = 5
         \<and> (\<forall>s \<in> set tags. first_match all_text keyword_table s
                                < first_match all_text keyword_table t))"
proof -
  from assms(1) obtain a where "gather_text L messages = Inr (a, messages')"
    and "tags = take 5 (scan_keywords a keyword_table [])"
    by (rule extract_tags_Inr)
  with assms(2) have t: "tags = take 5 (scan_keywords all_text keyword_table [])"
    by simp
  from scan_keywords_spec [of all_text keyword_table "[]"] obtain new where
    eq: "scan_keywords all_text keyword_table [] = new"
    and s: "set new = {t. \<exists>k. (k, t) \<in> set keyword_table \<and> sublist k all_text}"
    and o: "sorted_wrt (\<lambda>s t. first_match all_text keyword_table s
                              < first_match all_text keyword_table t) new"
    by auto
  have tags: "tags = take 5 new" using t eq by simp
  have mem: "t \<in> set new" using s assms(3,4) by blast
  show ?thesis
  proof (cases "t \<in> set tags")
    case True
    then show ?thesis by simp
  next
    case False
    have split: "new = tags @ drop 5 new" using tags by simp
    then have "t \<in> set (drop 5 new)" using mem False
      by (metis Un_iff set_append)
    moreover have "sorted_wrt (\<lambda>s t. first_match all_text keyword_table s
                                  < first_match all_text keyword_table t) (tags @ drop 5 new)"
      using o split by simp
    ultimately have "\<forall>s \<in> set tags. first_match all_text keyword_table s
                                < first_match all_text keyword_table t"
      by (simp add: sorted_wrt_append)
    moreover have "length tags = 5"
    proof -
      have "drop 5 new \<noteq> []" using \<open>t \<in> set (drop 5 new)\<close> by auto
      then show ?thesis using tags by simp
    qed
    ultimately show ?thesis by blast
  qed
qed

theorem extract_tags_substring_unless_full_witness:
  "extract_tags sample_lib
     [[(''role'', JStr ''user''), (''content'', JStr ''The latest rapid prototype'')]]
     = Inr ([''testing'', ''api''],
            [[(''role'', JStr ''user''), (''content'', JStr ''The latest rapid prototype'')]])
   \<and> gather_text sample_lib
       [[(''role'', JStr ''user''), (''content'', JStr ''The latest rapid prototype'')]]
     = Inr (''the latest rapid prototype '',
            [[(''role'', JStr ''user''), (''content'', JStr ''The latest rapid prototype'')]])
   \<and> (''test'', ''testing'') \<in> set keyword_table
   \<and> sublist ''test'' ''the latest rapid prototype ''
   \<and> ''testing'' \<in> set [''testing'', ''api'']"
proof -
  let ?ms = "[[(''role'', JStr ''user''), (''content'', JStr ''The latest rapid prototype'')]]"
  have e: "extract_tags sample_lib ?ms = Inr ([''testing'', ''api''], ?ms)"
    by code_simp
  have g: "gather_text sample_lib ?ms = Inr (''the latest rapid prototype '', ?ms)"
    by code_simp
  have k: "(''test'', ''testing'') \<in> set keyword_table"
    by code_simp
  have s: "sublist ''test'' ''the latest rapid prototype ''"
    by code_simp
  have f: "first_match ''the latest rapid prototype '' keyword_table ''testing''
             < first_match ''the latest rapid prototype '' keyword_table ''testing'' \<longleftrightarrow> False"
    by simp
  from extract_tags_substring_unless_full [OF e g k s] e g k s show ?thesis
    by (simp add: f)
qed

text \<open>
  C10 as stated fails: the keyword \<^verbatim>\<open>deploy\<close> occurs in the gathered text, but five tags
  with earlier keywords fill the result and \<^verbatim>\<open>deployment\<close> is not in it.
\<close>

theorem extract_tags_keyword_without_tag_counterexample:
  "gather_text sample_lib
     [[(''role'', JStr ''user''),
       (''content'', JStr ''bug feature refactor test review deploy'')]]
     = Inr (''bug feature refactor test review deploy '',
            [[(''role'', JStr ''user''),
              (''content'', JStr ''bug feature refactor test review deploy'')]])
   \<and> (''deploy'', ''deployment'') \<in> set keyword_table
   \<and> sublist ''deploy'' ''bug feature refactor test review deploy ''
   \<and> extract_tags sample_lib
       [[(''role'', JStr ''user''),
         (''content'', JStr ''bug feature refactor test review deploy'')]]
     = Inr ([''bug-fix'', ''feature-development'', ''refactoring'', ''testing'', ''code-review''],
            [[(''role'', JStr ''user''),
              (''content'', JStr ''bug feature refactor test review deploy'')]])
   \<and> ''deployment''
       \<notin> set [''bug-fix'', ''feature-development'', ''refactoring'', ''testing'', ''code-review'']"
  by code_simp

subsection \<open>Title inference\<close>

lemma rstrip_Cons:
  assumes "\<not> isspace h"
  shows "\<exists>t'. rstrip (h # t) = h # t'"
proof -
  have "\<exists>ys. dropWhile isspace (rev t @ [h]) = ys @ [h]"
    using assms by (simp add: dropWhile_append)
  then obtain ys where "dropWhile isspace (rev t @ [h]) = ys @ [h]" ..
  then have "rstrip (h # t) = h # rev ys"
    by (simp add: rstrip_def)
  then show ?thesis ..
qed

lemma strip_head:
  "strip s = [] \<or> (\<exists>h t. strip s = h # t \<and> \<not> isspace h)"
proof (cases "lstrip s")
  case Nil
  then show ?thesis by (simp add: strip_def rstrip_def)
next
  case (Cons h t)
  then have "\<not> isspace h"
    unfolding lstrip_def by (metis hd_dropWhile list.sel(1) list.simps(3))
  with Cons show ?thesis
    using rstrip_Cons [of h t] by (auto simp: strip_def)
qed

lemma isspace_LF: "isspace LF"
  by (simp add: isspace_def LF_def)

lemma first_line_nonempty:
  assumes "strip content \<noteq> []"
  shows "first_line content \<noteq> []"
proof -
  from assms strip_head [of content] obtain h t where
    s: "strip content = h # t" and h: "\<not> isspace h"
    by auto
  have "h \<noteq> LF" using h isspace_LF by auto
  then obtain t' where tw: "takeWhile (\<lambda>ch. ch \<noteq> LF) (strip content) = h # t'"
    using s by simp
  have "lstrip (h # t') = h # t'"
    using h by (simp add: lstrip_def)
  then show ?thesis
    using rstrip_Cons [OF h, of t'] tw by (auto simp: first_line_def strip_def)
qed

lemma title_candidate_qualifies:
  "title_candidate c = (if qualifies c then Some (title_of (the c)) else None)"
proof (cases c)
  case None
  then show ?thesis by (simp add: title_candidate_def qualifies_def)
next
  case (Some content)
  show ?thesis
  proof (cases "qualifies c")
    case True
    then have "strip content \<noteq> []"
      using Some by (auto simp: qualifies_def)
    then have "first_line content \<noteq> []"
      by (rule first_line_nonempty)
    then show ?thesis
      using True Some
      by (auto simp: title_candidate_def qualifies_def title_of_def first_line_def Let_def)
  next
    case False
    then show ?thesis
      using Some by (auto simp: title_candidate_def qualifies_def Let_def)
  qed
qed

lemma generate_title_skip:
  assumes "map_of p ''role'' = Some (JStr ''user'') \<longrightarrow>
             (\<exists>c. fst (extract_content L p) = Inr c \<and> \<not> qualifies c)"
  shows "\<exists>p'. generate_title L (p # rest) sid = keep p' (generate_title L rest sid)"
proof (cases "map_of p ''role'' = Some (JStr ''user'')")
  case True
  with assms obtain c where c: "fst (extract_content L p) = Inr c" and q: "\<not> qualifies c"
    by blast
  obtain r p' where e: "extract_content L p = (r, p')"
    by (cases "extract_content L p")
  with c have "r = Inr c" by simp
  then show ?thesis
    using True e q by (auto simp: title_candidate_qualifies)
next
  case False
  then show ?thesis by auto
qed

lemma generate_title_found:
  assumes "map_of m ''role'' = Some (JStr ''user'')"
    and "fst (extract_content L m) = Inr c"
    and "qualifies c"
  shows "\<exists>msgs'. generate_title L (m # post) sid = Inr (title_of (the c), msgs')"
proof -
  obtain r m' where e: "extract_content L m = (r, m')"
    by (cases "extract_content L m")
  with assms(2) have "r = Inr c" by simp
  then show ?thesis
    using assms(1,3) e by (simp add: title_candidate_qualifies)
qed

lemma keep_Inr:
  "r = Inr (x, msgs) \<Longrightarrow> keep p r = Inr (x, p # msgs)"
  by (simp add: keep_def)

text \<open>
  C3 (as the code has it). Let no user-role record of \<open>pre\<close> qualify. Then on \<open>pre\<close>
  alone the title is the fixed prefix and the first 8 characters of the session
  identifier; and when the next record \<open>m\<close> is a user-role record whose content
  qualifies, the title of \<open>pre @ m # post\<close> is the trimmed first line of that content,
  cut to 47 characters and an ellipsis when it is longer than 50.
\<close>

theorem generate_title_first_qualifying:
  assumes "\<forall>p \<in> set pre. map_of p ''role'' = Some (JStr ''user'') \<longrightarrow>
             (\<exists>c. fst (extract_content L p) = Inr c \<and> \<not> qualifies c)"
  shows "(\<exists>msgs'. generate_title L pre sid = Inr (''Conversation '' @ take 8 sid, msgs'))
     \<and> (map_of m ''role'' = Some (JStr ''user'')
          \<and> fst (extract_content L m) = Inr (Some content) \<and> qualifies (Some content) \<longrightarrow>
        (\<exists>msgs'. generate_title L (pre @ m # post) sid = Inr (title_of content, msgs')))"
  using assms
proof (induction pre)
  case Nil
  then show ?case
    using generate_title_found [of m L "Some content" post sid] by auto
next
  case (Cons p pre)
  then have IH1: "\<exists>msgs'. generate_title L pre sid = Inr (''Conversation '' @ take 8 sid, msgs')"
    and IH2: "map_of m ''role'' = Some (JStr ''user'')
          \<and> fst (extract_content L m) = Inr (Some content) \<and> qualifies (Some content) \<longrightarrow>
        (\<exists>msgs'. generate_title L (pre @ m # post) sid = Inr (title_of content, msgs'))"
    by auto
  from Cons.prems have p: "map_of p ''role'' = Some (JStr ''user'') \<longrightarrow>
             (\<exists>c. fst (extract_content L p) = Inr c \<and> \<not> qualifies c)"
    by simp
  have one: "\<exists>msgs'. generate_title L (p # pre) sid = Inr (''Conversation '' @ take 8 sid, msgs')"
    using generate_title_skip [OF p, of pre sid] IH1 by (auto simp: keep_Inr)
  have two: "\<exists>msgs'. generate_title L ((p # pre) @ m # post) sid = Inr (title_of content, msgs')"
    if "map_of m ''role'' = Some (JStr ''user'')
          \<and> fst (extract_content L m) = Inr (Some content) \<and> qualifies (Some content)"
    using generate_title_skip [OF p, of "pre @ m # post" sid] IH2 that by (auto simp: keep_Inr)
  show ?case using one two by blast
qed

theorem generate_title_first_qualifying_witness:
  "\<exists>msgs'. generate_title sample_lib
     ([[(''role'', JStr ''user''), (''content'', JStr ''hi'')]]
      @ [(''role'', JStr ''user''),
         (''content'', JStr ''Please refactor the login flow to use middleware'')] # [])
     ''0123456789abcdef''
   = Inr (''Please refactor the login flow to use middleware'', msgs')"
proof -
  let ?hi = "[(''role'', JStr ''user''), (''content'', JStr ''hi'')]"
  let ?m = "[(''role'', JStr ''user''),
             (''content'', JStr ''Please refactor the login flow to use middleware'')]"
  have "fst (extract_content sample_lib ?hi) = Inr (Some ''hi'')"
    by code_simp
  moreover have "\<not> qualifies (Some ''hi'')"
    by code_simp
  ultimately have pre: "\<forall>p \<in> set [?hi]. map_of p ''role'' = Some (JStr ''user'') \<longrightarrow>
      (\<exists>c. fst (extract_content sample_lib p) = Inr c \<and> \<not> qualifies c)"
    by simp
  have role: "map_of ?m ''role'' = Some (JStr ''user'')"
    by simp
  have c: "fst (extract_content sample_lib ?m)
             = Inr (Some ''Please refactor the login flow to use middleware'')"
    by code_simp
  have q: "qualifies (Some ''Please refactor the login flow to use middleware'')"
    by code_simp
  have t: "title_of ''Please refactor the login flow to use middleware''
             = ''Please refactor the login flow to use middleware''"
    by code_simp
  from generate_title_first_qualifying [OF pre, of "''0123456789abcdef''" ?m
      "''Please refactor the login flow to use middleware''" "[]"] role c q t
  show ?thesis by simp
qed

text \<open>
  C3 as stated fails: the first line of the content ends with a carriage return (the
  line break is \<^verbatim>\<open>\r\n\<close>); the title is not that line unmodified, it is the line
  trimmed.
\<close>

theorem generate_title_trims_first_line_counterexample:
  "takeWhile (\<lambda>ch. ch \<noteq> LF) (''Please refactor the login flow'' @ [CR, LF] @ ''to use middleware'')
     = ''Please refactor the login flow'' @ [CR]
   \<and> generate_title sample_lib
       [[(''role'', JStr ''user''),
         (''content'', JStr (''Please refactor the login flow'' @ [CR, LF] @ ''to use middleware''))]]
       ''0123456789abcdef''
     = Inr (''Please refactor the login flow'',
            [[(''role'', JStr ''user''),
              (''content'',
               JStr (''Please refactor the login flow'' @ [CR, LF] @ ''to use middleware''))]])
   \<and> ''Please refactor the login flow'' \<noteq> ''Please refactor the login flow'' @ [CR]"
  by code_simp

subsection \<open>Reading back what was written\<close>

lemma CR_neq_LF: "CR \<noteq> LF"
  by (simp add: CR_def LF_def)

lemma universal_newlines_no_CR: "CR \<notin> set (universal_newlines s)"
  by (induction s rule: universal_newlines.induct) (auto simp: CR_neq_LF)

lemma universal_newlines_id: "CR \<notin> set s \<Longrightarrow> universal_newlines s = s"
  by (induction s rule: universal_newlines.induct) auto

lemma universal_newlines_last:
  "s \<noteq> [] \<Longrightarrow> last s = LF \<or> last s = CR \<Longrightarrow>
   universal_newlines s \<noteq> [] \<and> last (universal_newlines s) = LF"
  by (induction s rule: universal_newlines.induct) (auto split: if_splits)

lemma split_lines_nonempty: "s \<noteq> [] \<Longrightarrow> split_lines s \<noteq> []"
  by (cases s) (auto split: list.splits)

lemma concat_split_lines: "concat (split_lines s) = s"
  by (induction s) (auto split: list.splits)

lemma split_lines_ended:
  "s \<noteq> [] \<Longrightarrow> last s = LF \<Longrightarrow>
   \<forall>l \<in> set (split_lines s). l \<noteq> [] \<and> last l = LF \<and> LF \<notin> set (butlast l)"
proof (induction s)
  case Nil
  then show ?case by simp
next
  case (Cons c cs)
  show ?case
  proof (cases "cs = []")
    case True
    then show ?thesis using Cons.prems by simp
  next
    case False
    then have IH: "\<forall>l \<in> set (split_lines cs). l \<noteq> [] \<and> last l = LF \<and> LF \<notin> set (butlast l)"
      using Cons by simp
    from False obtain l ls where sp: "split_lines cs = l # ls"
      using split_lines_nonempty [of cs] by (cases "split_lines cs") auto
    show ?thesis
      using IH sp by auto
  qed
qed

lemma split_lines_append_line:
  "l \<noteq> [] \<Longrightarrow> last l = LF \<Longrightarrow> LF \<notin> set (butlast l) \<Longrightarrow>
   split_lines (l @ s) = l # split_lines s"
proof (induction l)
  case Nil
  then show ?case by simp
next
  case (Cons c l)
  show ?case
  proof (cases "l = []")
    case True
    then show ?thesis using Cons.prems by simp
  next
    case False
    then have "split_lines (l @ s) = l # split_lines s" and "c \<noteq> LF"
      using Cons by auto
    then show ?thesis by simp
  qed
qed

lemma split_lines_concat:
  "\<forall>l \<in> set ls. complete_line l \<Longrightarrow> split_lines (concat ls) = ls"
  by (induction ls) (auto simp: complete_line_def split_lines_append_line)

lemma readlines_concat:
  assumes "\<forall>l \<in> set ls. complete_line l"
  shows "readlines (concat ls) = ls"
proof -
  have "CR \<notin> set (concat ls)"
    using assms by (auto simp: complete_line_def)
  then show ?thesis
    using assms by (simp add: readlines_def universal_newlines_id split_lines_concat)
qed

lemma readlines_complete:
  assumes "content \<noteq> []" and "last content = LF \<or> last content = CR"
  shows "\<forall>l \<in> set (readlines content). complete_line l"
proof -
  let ?s = "universal_newlines content"
  have s: "?s \<noteq> []" "last ?s = LF"
    using universal_newlines_last [OF assms] by auto
  have "set l \<subseteq> set ?s" if "l \<in> set (split_lines ?s)" for l
  proof -
    have "set (concat (split_lines ?s)) = set ?s"
      by (simp add: concat_split_lines)
    then show ?thesis using that by auto
  qed
  then have "CR \<notin> set l" if "l \<in> set (split_lines ?s)" for l
    using that universal_newlines_no_CR [of content] by blast
  then show ?thesis
    using split_lines_ended [OF s] by (auto simp: readlines_def complete_line_def)
qed

subsection \<open>Index Updater\<close>

lemma find_marker_first:
  "i < length ls \<Longrightarrow> sublist ''## Conversations'' (ls ! i) \<Longrightarrow>
   \<forall>j < i. \<not> sublist ''## Conversations'' (ls ! j) \<Longrightarrow>
   find_marker ls n = Some (n + i)"
proof (induction ls arbitrary: i n)
  case Nil
  then show ?case by simp
next
  case (Cons l ls)
  show ?case
  proof (cases i)
    case 0
    then show ?thesis using Cons.prems by simp
  next
    case (Suc k)
    have "\<not> sublist ''## Conversations'' l"
      using Cons.prems(3) Suc by auto
    moreover have "find_marker ls (Suc n) = Some (Suc n + k)"
    proof (rule Cons.IH)
      show "k < length ls" using Cons.prems(1) Suc by simp
      show "sublist ''## Conversations'' (ls ! k)" using Cons.prems(2) Suc by simp
      show "\<forall>j < k. \<not> sublist ''## Conversations'' (ls ! j)"
        using Cons.prems(3) Suc by auto
    qed
    ultimately show ?thesis using Suc by simp
  qed
qed

lemma insert_pos_first:
  "i < length ls \<Longrightarrow> sublist ''## Conversations'' (ls ! i) \<Longrightarrow>
   \<forall>j < i. \<not> sublist ''## Conversations'' (ls ! j) \<Longrightarrow>
   insert_pos ls = i + 2"
  using find_marker_first [of i ls 0] by (simp add: insert_pos_def)

lemma update_index_existing:
  assumes "fs (path_join output_dir ''index.md'') = Some content"
    and "i < length (readlines content)"
    and "sublist ''## Conversations'' (readlines content ! i)"
    and "\<forall>j < i. \<not> sublist ''## Conversations'' (readlines content ! j)"
  shows "update_index today fs output_dir session_id md =
           fs(path_join output_dir ''index.md'' \<mapsto>
                concat (take (i + 2) (readlines content) @ index_entry today session_id md
                        # drop (i + 2) (readlines content)))"
  using assms insert_pos_first [OF assms(2,3,4)]
  by (simp add: update_index_def list_insert_def Let_def)

lemma insert_complete:
  assumes "\<forall>l \<in> set ls. complete_line l" and "complete_line e"
  shows "\<forall>l \<in> set (take n ls @ e # drop n ls). complete_line l"
  using assms by (auto dest: in_set_takeD in_set_dropD)

text \<open>
  C2 (as the code has it). Let the index file exist and end with a line break, let \<open>i\<close>
  be the index of the first of its lines that contains the marker, and let the new entry
  be one line. The lines of the file that one call writes, as the next call reads them,
  are the old lines, unchanged and in order, with the entry put in at position \<open>i + 2\<close>:
  two lines below the marker line when a line follows it, and at the end, one line below
  the marker line, when it is the last line. When a line follows the marker line, a
  second call puts its entry at \<open>i + 2\<close> again, directly before the first entry, whatever
  the dates are.
\<close>

theorem update_index_inserts_below_marker:
  assumes "fs (path_join output_dir ''index.md'') = Some content"
    and "content \<noteq> []"
    and "last content = LF \<or> last content = CR"
    and "i < length (readlines content)"
    and "sublist ''## Conversations'' (readlines content ! i)"
    and "\<forall>j < i. \<not> sublist ''## Conversations'' (readlines content ! j)"
    and "complete_line (index_entry today session_id md)"
  shows "map_option readlines
           (update_index today fs output_dir session_id md (path_join output_dir ''index.md''))
         = Some (take (i + 2) (readlines content) @ index_entry today session_id md
                 # drop (i + 2) (readlines content))
     \<and> (i + 1 < length (readlines content) \<longrightarrow>
          map_option (\<lambda>new. readlines new ! (i + 2))
            (update_index today fs output_dir session_id md (path_join output_dir ''index.md''))
          = Some (index_entry today session_id md))
     \<and> (i + 1 = length (readlines content) \<longrightarrow>
          map_option readlines
            (update_index today fs output_dir session_id md (path_join output_dir ''index.md''))
          = Some (readlines content @ [index_entry today session_id md]))
     \<and> (i + 1 < length (readlines content)
          \<and> complete_line (index_entry today2 session_id2 md2) \<longrightarrow>
          map_option readlines
            (update_index today2 (update_index today fs output_dir session_id md)
               output_dir session_id2 md2 (path_join output_dir ''index.md''))
          = Some (take (i + 2) (readlines content) @ index_entry today2 session_id2 md2
                  # index_entry today session_id md # drop (i + 2) (readlines content)))"
proof -
  let ?ls = "readlines content"
  let ?e = "index_entry today session_id md"
  let ?e2 = "index_entry today2 session_id2 md2"
  let ?ls1 = "take (i + 2) ?ls @ ?e # drop (i + 2) ?ls"
  let ?ls2 = "take (i + 2) ?ls @ ?e2 # ?e # drop (i + 2) ?ls"
  let ?p = "path_join output_dir ''index.md''"
  have step1: "update_index today fs output_dir session_id md = fs(?p \<mapsto> concat ?ls1)"
    using assms(1,4,5,6) by (rule update_index_existing)
  have one: "update_index today fs output_dir session_id md ?p = Some (concat ?ls1)"
    using step1 by simp
  have old: "\<forall>l \<in> set ?ls. complete_line l"
    using assms(2,3) by (rule readlines_complete)
  then have all1: "\<forall>l \<in> set ?ls1. complete_line l"
    using assms(7) by (rule insert_complete)
  then have rt: "readlines (concat ?ls1) = ?ls1"
    by (rule readlines_concat)
  have lines1: "map_option readlines (update_index today fs output_dir session_id md ?p)
                  = Some ?ls1"
    unfolding one option.map rt ..
  have pos: "map_option (\<lambda>new. readlines new ! (i + 2))
               (update_index today fs output_dir session_id md ?p) = Some ?e"
    if "i + 1 < length ?ls"
  proof -
    have "length (take (i + 2) ?ls) = i + 2" using that by simp
    then have "?ls1 ! (i + 2) = ?e" by (metis nth_append_length)
    then show ?thesis unfolding one option.map rt by simp
  qed
  have last_line: "map_option readlines (update_index today fs output_dir session_id md ?p)
                     = Some (?ls @ [?e])"
    if "i + 1 = length ?ls"
  proof -
    have "take (i + 2) ?ls = ?ls" "drop (i + 2) ?ls = []"
      using that by simp_all
    then show ?thesis using lines1 by simp
  qed
  have two: "map_option readlines
               (update_index today2 (update_index today fs output_dir session_id md)
                  output_dir session_id2 md2 ?p) = Some ?ls2"
    if follows: "i + 1 < length ?ls" and e2: "complete_line ?e2"
  proof -
    have len0: "i < length ?ls1"
      using follows by simp
    have same: "?ls1 ! j = ?ls ! j" if "j \<le> i" for j
      using that follows by (simp add: nth_append)
    have len: "i < length (readlines (concat ?ls1))"
      unfolding rt by (rule len0)
    have m1: "sublist ''## Conversations'' (readlines (concat ?ls1) ! i)"
      unfolding rt using assms(5) same [of i] by simp
    have m2: "\<forall>j < i. \<not> sublist ''## Conversations'' (readlines (concat ?ls1) ! j)"
      unfolding rt using assms(6) same by simp
    have step2: "update_index today2 (update_index today fs output_dir session_id md)
            output_dir session_id2 md2
          = (update_index today fs output_dir session_id md)
              (?p \<mapsto> concat (take (i + 2) ?ls1 @ ?e2 # drop (i + 2) ?ls1))"
      using update_index_existing
        [where fs = "update_index today fs output_dir session_id md"
           and output_dir = output_dir and content = "concat ?ls1" and i = i,
         OF one len m1 m2]
      unfolding rt .
    have td: "take (i + 2) ?ls1 = take (i + 2) ?ls"
      "drop (i + 2) ?ls1 = ?e # drop (i + 2) ?ls"
      using follows by simp_all
    have written: "update_index today2 (update_index today fs output_dir session_id md)
            output_dir session_id2 md2 ?p = Some (concat ?ls2)"
      unfolding step2 td by simp
    have "\<forall>l \<in> set (?e # drop (i + 2) ?ls). complete_line l"
      using old assms(7) by (auto dest: in_set_dropD)
    moreover have "\<forall>l \<in> set (take (i + 2) ?ls). complete_line l"
      using old by (auto dest: in_set_takeD)
    ultimately have "\<forall>l \<in> set ?ls2. complete_line l"
      using e2 by auto
    then have "readlines (concat ?ls2) = ?ls2"
      by (rule readlines_concat)
    then show ?thesis
      unfolding written option.map by simp
  qed
  show ?thesis
    using lines1 pos last_line two by blast
qed

theorem update_index_inserts_below_marker_witness:
  "map_option readlines
     (update_index ''2026-03-02'' header_index ''out'' ''s1'' md_a ''out/index.md'')
   = Some (index_header @ [index_entry ''2026-03-02'' ''s1'' md_a])
   \<and> map_option readlines
       (update_index ''2026-03-02''
          (update_index ''2026-03-02'' header_index ''out'' ''s1'' md_a)
          ''out'' ''s2'' md_b ''out/index.md'')
     = Some (index_header @ [index_entry ''2026-03-02'' ''s2'' md_b,
                             index_entry ''2026-03-02'' ''s1'' md_a])"
proof -
  let ?c = "concat index_header"
  have f: "header_index (path_join ''out'' ''index.md'') = Some ?c"
    by (simp add: header_index_def path_join_def)
  have ne: "?c \<noteq> []" and ended: "last ?c = LF \<or> last ?c = CR"
    by code_simp+
  have rl: "readlines ?c = index_header"
    by code_simp
  have len: "4 < length (readlines ?c)"
    unfolding rl by (simp add: index_header_def)
  have m: "sublist ''## Conversations'' (readlines ?c ! 4)"
    unfolding rl by code_simp
  have "\<not> sublist ''## Conversations'' (index_header ! 0)"
    "\<not> sublist ''## Conversations'' (index_header ! 1)"
    "\<not> sublist ''## Conversations'' (index_header ! 2)"
    "\<not> sublist ''## Conversations'' (index_header ! 3)"
    by code_simp+
  then have nm: "\<forall>j < 4. \<not> sublist ''## Conversations'' (readlines ?c ! j)"
    unfolding rl by (auto simp: numeral_eq_Suc less_Suc_eq)
  have e1: "complete_line (index_entry ''2026-03-02'' ''s1'' md_a)"
    by code_simp
  have more: "4 + 1 < length (readlines ?c)"
    "complete_line (index_entry ''2026-03-02'' ''s2'' md_b)"
    by code_simp+
  have td: "take (4 + 2) (readlines ?c) = index_header" "drop (4 + 2) (readlines ?c) = []"
    unfolding rl by (simp_all add: index_header_def)
  from update_index_inserts_below_marker
    [where fs = header_index and output_dir = "''out''" and content = ?c and i = 4
       and today = "''2026-03-02''" and session_id = "''s1''" and md = md_a
       and ?today2.0 = "''2026-03-02''" and ?session_id2.0 = "''s2''" and ?md2.0 = md_b,
     OF f ne ended len m nm e1]
    more
  have "map_option readlines
          (update_index ''2026-03-02'' header_index ''out'' ''s1'' md_a
             (path_join ''out'' ''index.md''))
        = Some (take (4 + 2) (readlines ?c) @ index_entry ''2026-03-02'' ''s1'' md_a
                # drop (4 + 2) (readlines ?c))
      \<and> map_option readlines
          (update_index ''2026-03-02''
             (update_index ''2026-03-02'' header_index ''out'' ''s1'' md_a)
             ''out'' ''s2'' md_b (path_join ''out'' ''index.md''))
        = Some (take (4 + 2) (readlines ?c) @ index_entry ''2026-03-02'' ''s2'' md_b
                # index_entry ''2026-03-02'' ''s1'' md_a # drop (4 + 2) (readlines ?c))"
    by blast
  then show ?thesis
    unfolding td by (simp add: path_join_def)
qed

text \<open>
  C2 as stated fails when the marker is the last line of the index: position \<open>i + 2\<close> is
  beyond the end, the first entry is appended one line below the marker, and the second
  entry lands after the first, not directly under the header.
\<close>

theorem update_index_marker_last_line_counterexample:
  "update_index ''2026-03-02'' marker_last_index ''out'' ''s1'' md_a ''out/index.md''
     = Some (concat [''## Conversations'' @ [LF], index_entry ''2026-03-02'' ''s1'' md_a])
   \<and> update_index ''2026-03-02''
       (update_index ''2026-03-02'' marker_last_index ''out'' ''s1'' md_a)
       ''out'' ''s2'' md_b ''out/index.md''
     = Some (concat [''## Conversations'' @ [LF], index_entry ''2026-03-02'' ''s1'' md_a,
                     index_entry ''2026-03-02'' ''s2'' md_b])"
  by code_simp

subsection \<open>Saving the document\<close>

text \<open>
  A document whose name has no \<^verbatim>\<open>/\<close> is written and the index updated. A session
  identifier with a \<^verbatim>\<open>/\<close> fails where the directory it names does not exist: the run
  ends with an uncaught \<^verbatim>\<open>FileNotFoundError\<close>, code 1, and neither the document nor
  the index nor the marker file is written.
\<close>

lemma save_conversation_plain_name:
  assumes "CHR ''/'' \<notin> set session_id"
  shows "\<exists>filepath. save_conversation today dir_exists fs markdown output_dir session_id md
           = Inr (update_index today (fs(filepath \<mapsto> markdown)) output_dir session_id md)"
  using assms by (auto simp: save_conversation_def Let_def)

lemma save_conversation_no_directory:
  assumes "CHR ''/'' \<in> set session_id"
  shows "save_conversation today no_directory fs markdown output_dir session_id md
           = Inl FileNotFoundError"
  using assms by (simp add: save_conversation_def no_directory_def Let_def)

lemma main_no_directory_example:
  "fst (main sample_lib ''2026-03-02'' no_directory nothing_recorded (Hook (Some hook_slash)))
     = Uncaught FileNotFoundError
   \<and> completion_code (Uncaught FileNotFoundError) = 1
   \<and> snd (main sample_lib ''2026-03-02'' no_directory nothing_recorded (Hook (Some hook_slash)))
         ''p/.claude/history/2026/03-02/a/b.md'' = None
   \<and> snd (main sample_lib ''2026-03-02'' no_directory nothing_recorded (Hook (Some hook_slash)))
         ''p/.claude/history/index.md'' = None
   \<and> snd (main sample_lib ''2026-03-02'' no_directory nothing_recorded (Hook (Some hook_slash)))
         ''p/.claude/history/.exported_state'' = None"
  by code_simp

subsection \<open>Completion codes\<close>




subsection \<open>Triggered mode and the marker file\<close>

lemma suffix_universal_newlines:
  "CR \<notin> set b \<Longrightarrow> suffix b (universal_newlines (a @ b))"
proof (induction a rule: universal_newlines.induct)
  case 1
  then show ?case by (simp add: universal_newlines_id)
next
  case (2 c)
  show ?case
  proof (cases b)
    case Nil
    then show ?thesis by simp
  next
    case (Cons d ds)
    then have id1: "universal_newlines (d # ds) = d # ds" and id2: "universal_newlines ds = ds"
      using 2 by (simp_all add: universal_newlines_id)
    show ?thesis
    proof (cases "c = CR \<and> d = LF")
      case True
      then show ?thesis using Cons id2 by simp
    next
      case False
      then have "\<exists>x. universal_newlines ([c] @ b) = x # b"
        using Cons id1 by auto
      then show ?thesis by (auto intro: suffix_ConsI)
    qed
  qed
next
  case (3 c d ds)
  show ?case
  proof (cases "c = CR \<and> d = LF")
    case True
    then have "suffix b (universal_newlines (ds @ b))"
      using 3 by simp
    then show ?thesis
      using True by (simp add: suffix_ConsI)
  next
    case False
    then have "suffix b (universal_newlines ((d # ds) @ b))"
      using 3 by (cases "c = CR") simp_all
    moreover have "\<exists>x. universal_newlines ((c # d # ds) @ b)
                     = x # universal_newlines ((d # ds) @ b)"
      using False by (cases "c = CR") simp_all
    ultimately show ?thesis
      by (auto intro: suffix_ConsI)
  qed
qed

lemma already_exported_after_record:
  assumes "CR \<notin> set session_id"
  shows "already_exported (record_exported fs state_file session_id) state_file session_id"
proof -
  let ?text = "universal_newlines (get_or (fs state_file) [] @ session_id @ [LF])"
  have "CR \<notin> set (session_id @ [LF])"
    using assms CR_neq_LF by simp
  then have "suffix (session_id @ [LF]) ?text"
    using suffix_universal_newlines [of "session_id @ [LF]" "get_or (fs state_file) []"]
    by simp
  then obtain zs where "?text = zs @ session_id @ [LF]"
    unfolding suffix_def by blast
  then have "sublist session_id ?text"
    unfolding sublist_def by blast
  then show ?thesis
    by (simp add: already_exported_def record_exported_def)
qed

lemma main_hook_missing:
  assumes "get_or (hook_session_id hook) [] = [] \<or> get_or (hook_cwd hook) [] = []"
  shows "main L today dir_exists fs (Hook (Some hook)) = (Exit 1, fs)"
  unfolding main_def Let_def using assms
  by (simp only: invocation.case option.case if_True)

lemma main_hook_skips:
  assumes "get_or (hook_session_id hook) [] \<noteq> []" and "get_or (hook_cwd hook) [] \<noteq> []"
    and "already_exported fs
           ((get_or (hook_cwd hook) [] @ ''/.claude/history'') @ ''/.exported_state'')
           (get_or (hook_session_id hook) [])"
  shows "main L today dir_exists fs (Hook (Some hook)) = (Exit 0, fs)"
  unfolding main_def Let_def using assms
  by (simp only: invocation.case option.case if_False if_True simp_thms)

lemma main_hook_unrecorded:
  assumes "get_or (hook_session_id hook) [] \<noteq> []" and "get_or (hook_cwd hook) [] \<noteq> []"
    and "\<not> already_exported fs
           ((get_or (hook_cwd hook) [] @ ''/.claude/history'') @ ''/.exported_state'')
           (get_or (hook_session_id hook) [])"
  shows "\<exists>r. main L today dir_exists fs (Hook (Some hook))
           = (case r of
                Inl e \<Rightarrow> (Uncaught e, fs)
              | Inr fs' \<Rightarrow>
                  (Exit 0, record_exported fs'
                     ((get_or (hook_cwd hook) [] @ ''/.claude/history'') @ ''/.exported_state'')
                     (get_or (hook_session_id hook) [])))"
  unfolding main_def Let_def using assms
  by (simp only: invocation.case option.case if_False simp_thms) blast

lemma hook_step:
  "p = (case r of Inl e \<Rightarrow> (Uncaught e, fs) | Inr fs' \<Rightarrow> (Exit 0, g fs')) \<Longrightarrow>
   fst p = Exit 0 \<Longrightarrow> \<exists>fs'. snd p = g fs'"
  by (cases r) auto

lemma main_hook_records:
  assumes "fst (main L today dir_exists fs (Hook (Some hook))) = Exit 0"
    and "CR \<notin> set (get_or (hook_session_id hook) [])"
  shows "get_or (hook_session_id hook) [] \<noteq> [] \<and> get_or (hook_cwd hook) [] \<noteq> []
     \<and> already_exported (snd (main L today dir_exists fs (Hook (Some hook))))
           ((get_or (hook_cwd hook) [] @ ''/.claude/history'') @ ''/.exported_state'')
           (get_or (hook_session_id hook) [])"
proof -
  let ?sid = "get_or (hook_session_id hook) []"
  let ?cwd = "get_or (hook_cwd hook) []"
  let ?state = "(?cwd @ ''/.claude/history'') @ ''/.exported_state''"
  let ?p = "main L today dir_exists fs (Hook (Some hook))"
  have ne: "?sid \<noteq> []" "?cwd \<noteq> []"
  proof -
    have "\<not> (?sid = [] \<or> ?cwd = [])"
    proof
      assume "?sid = [] \<or> ?cwd = []"
      then have "?p = (Exit 1, fs)" by (rule main_hook_missing)
      then have "fst ?p = Exit 1" by (simp only: fst_conv)
      with assms(1) show False by simp
    qed
    then show "?sid \<noteq> []" "?cwd \<noteq> []" by blast+
  qed
  have "already_exported (snd ?p) ?state ?sid"
  proof (cases "already_exported fs ?state ?sid")
    case True
    have "?p = (Exit 0, fs)" using ne True by (rule main_hook_skips)
    then have "snd ?p = fs" by (simp only: snd_conv)
    then show ?thesis using True by (simp only:)
  next
    case False
    from main_hook_unrecorded [OF ne False, of L today] obtain r where
      "?p = (case r of
               Inl e \<Rightarrow> (Uncaught e, fs)
             | Inr fs' \<Rightarrow> (Exit 0, record_exported fs' ?state ?sid))" ..
    then have "\<exists>fs'. snd ?p = record_exported fs' ?state ?sid"
      using assms(1) by (rule hook_step)
    then obtain fs' where "snd ?p = record_exported fs' ?state ?sid" ..
    then show ?thesis
      using already_exported_after_record [OF assms(2), of fs' ?state] by (simp only:)
  qed
  with ne show ?thesis by blast
qed

lemma main_hook_second_run:
  assumes "fst (main L today dir_exists fs (Hook (Some hook))) = Exit 0"
    and "CR \<notin> set (get_or (hook_session_id hook) [])"
  shows "main L today2 dir_exists (snd (main L today dir_exists fs (Hook (Some hook)))) (Hook (Some hook))
           = (Exit 0, snd (main L today dir_exists fs (Hook (Some hook))))"
proof -
  from main_hook_records [OF assms]
  have "get_or (hook_session_id hook) [] \<noteq> []" "get_or (hook_cwd hook) [] \<noteq> []"
    "already_exported (snd (main L today dir_exists fs (Hook (Some hook))))
           ((get_or (hook_cwd hook) [] @ ''/.claude/history'') @ ''/.exported_state'')
           (get_or (hook_session_id hook) [])"
    by blast+
  then show ?thesis
    by (rule main_hook_skips)
qed

text \<open>
  C8 on the code. The marker file records the session \<^verbatim>\<open>abcdef\<close>; the session \<^verbatim>\<open>abc\<close> is
  not one of its lines and the log source exists. The run for \<^verbatim>\<open>abc\<close> still ends at once
  with code 0 and writes nothing, because \<^verbatim>\<open>abc\<close> occurs inside \<^verbatim>\<open>abcdef\<close>; without the
  marker file the same run exports the session and writes the index.
\<close>

theorem main_skips_identifier_inside_another:
  "''abc'' @ [LF] \<notin> set (readlines (''abcdef'' @ [LF]))
   \<and> recorded_abcdef ''t.jsonl'' \<noteq> None
   \<and> main sample_lib ''2026-03-02'' no_directory recorded_abcdef (Hook (Some hook_abc))
       = (Exit 0, recorded_abcdef)
   \<and> fst (main sample_lib ''2026-03-02'' no_directory nothing_recorded (Hook (Some hook_abc)))
       = Exit 0
   \<and> snd (main sample_lib ''2026-03-02'' no_directory nothing_recorded (Hook (Some hook_abc)))
         ''p/.claude/history/index.md'' \<noteq> None"
proof -
  have a: "''abc'' @ [LF] \<notin> set (readlines (''abcdef'' @ [LF]))"
    by code_simp
  have b: "recorded_abcdef ''t.jsonl'' \<noteq> None"
    by code_simp
  have "get_or (hook_session_id hook_abc) [] \<noteq> []" "get_or (hook_cwd hook_abc) [] \<noteq> []"
    "already_exported recorded_abcdef
       ((get_or (hook_cwd hook_abc) [] @ ''/.claude/history'') @ ''/.exported_state'')
       (get_or (hook_session_id hook_abc) [])"
    by code_simp+
  then have c: "main sample_lib ''2026-03-02'' no_directory recorded_abcdef (Hook (Some hook_abc))
                  = (Exit 0, recorded_abcdef)"
    by (rule main_hook_skips)
  have d: "fst (main sample_lib ''2026-03-02'' no_directory nothing_recorded
                  (Hook (Some hook_abc))) = Exit 0"
    by code_simp
  have e: "snd (main sample_lib ''2026-03-02'' no_directory nothing_recorded (Hook (Some hook_abc)))
             ''p/.claude/history/index.md'' \<noteq> None"
    by code_simp
  from a b c d e show ?thesis by blast
qed

end
